theory Spec2Isabelle
  imports Main "HOL-Library.AList"
begin

section \<open>JavaScript strings and string helpers\<close>

text \<open>
  Argument strings are modelled as \<open>string\<close> (lists of characters with codes below 256).
  A JavaScript string is truthy exactly when it is not empty.
\<close>

definition startsWith :: "string \<Rightarrow> string \<Rightarrow> bool" where
  "startsWith s p = (take (length p) s = p)"

text \<open>
  The white space of \<open>String.prototype.trim\<close> and of the regular expression class
  \<open>\s\<close>, restricted to character codes below 256: TAB, LF, VT, FF, CR, SPACE and NBSP.
\<close>

definition isSpace :: "char \<Rightarrow> bool" where
  "isSpace c = (of_char c \<in> {9, 10, 11, 12, 13, 32, 160 :: nat})"

definition trim :: "string \<Rightarrow> string" where
  "trim s = rev (dropWhile isSpace (rev (dropWhile isSpace s)))"

text \<open>\<open>s.split(sep)\<close> for a one-character separator: empty pieces are kept.\<close>

fun split :: "char \<Rightarrow> string \<Rightarrow> string list" where
  "split sep [] = [[]]"
| "split sep (c # cs) =
     (if c = sep then [] # split sep cs
      else (case split sep cs of
              [] \<Rightarrow> [[c]]
            | p # ps \<Rightarrow> (c # p) # ps))"

section \<open>The flag table of \<open>parseClaudeArgsToExtraArgs\<close>\<close>

text \<open>
  \<open>Record<string, string | null>\<close> as an association list in the order in which the keys
  were first assigned: \<open>result[flag] = v\<close> is \<open>AList.update flag v result\<close>,
  \<open>delete result[flag]\<close> is \<open>AList.delete flag result\<close>, and \<open>result[flag]\<close> is
  \<open>map_of result flag\<close>: the key is absent (\<open>None\<close>), holds \<open>null\<close> (\<open>Some None\<close>, a
  boolean flag) or holds a string (\<open>Some (Some v)\<close>). The prototype chain of the object
  (the key \<open>__proto__\<close> and inherited properties) is not part of the model.
\<close>

type_synonym flag_table = "(string \<times> string option) list"

text \<open>
  The result of shell-quote's \<open>parse\<close>: strings, and objects for operators, globs and
  comments, which the filter \<open>typeof arg === "string"\<close> drops. The tokenizer itself is a
  library outside the repository and is a parameter of the functions below; it returns
  \<open>Inl e\<close> when it throws \<open>e\<close>.
\<close>

datatype shell_entry = Str string | Obj string

fun strings_of :: "shell_entry list \<Rightarrow> string list" where
  "strings_of [] = []"
| "strings_of (Str s # es) = s # strings_of es"
| "strings_of (Obj _ # es) = strings_of es"

definition ACCUMULATING_FLAGS :: "string set" where
  "ACCUMULATING_FLAGS = {''allowedTools'', ''disallowedTools''}"

text \<open>Truthiness of \<open>result[flag]\<close>: absent, \<open>null\<close> and the empty string are falsy.\<close>

fun truthy :: "string option option \<Rightarrow> bool" where
  "truthy (Some (Some v)) = (v \<noteq> [])"
| "truthy _ = False"

text \<open>\<open>nextArg && !nextArg.startsWith("--")\<close> for a token that exists.\<close>

definition isValue :: "string \<Rightarrow> bool" where
  "isValue nextArg = (nextArg \<noteq> [] \<and> \<not> startsWith nextArg ''--'')"

text \<open>
  The body of the branch that stores a value, in the version with
  \<open>ACCUMULATING_FLAGS\<close>.
\<close>

definition storeValue :: "flag_table \<Rightarrow> string \<Rightarrow> string \<Rightarrow> flag_table" where
  "storeValue result flag nextArg =
     (if flag \<in> ACCUMULATING_FLAGS \<and> truthy (map_of result flag)
      then AList.update flag (Some (the (the (map_of result flag)) @ '','' @ nextArg)) result
      else AList.update flag (Some nextArg) result)"

text \<open>
  The \<open>for\<close> loop over \<open>args\<close>, as a recursion over the tokens that remain; the index
  advances by two when a value is consumed and by one otherwise.
\<close>

fun extraArgsLoop :: "string list \<Rightarrow> flag_table \<Rightarrow> flag_table" where
  "extraArgsLoop [] result = result"
| "extraArgsLoop [arg] result =
     (if startsWith arg ''--'' then AList.update (drop 2 arg) None result else result)"
| "extraArgsLoop (arg # nextArg # rest) result =
     (if startsWith arg ''--'' then
        (if isValue nextArg
         then extraArgsLoop rest (storeValue result (drop 2 arg) nextArg)
         else extraArgsLoop (nextArg # rest) (AList.update (drop 2 arg) None result))
      else extraArgsLoop (nextArg # rest) result)"

text \<open>The loop of the version without an accumulating set: a value always overwrites.\<close>

fun extraArgsLoop_base :: "string list \<Rightarrow> flag_table \<Rightarrow> flag_table" where
  "extraArgsLoop_base [] result = result"
| "extraArgsLoop_base [arg] result =
     (if startsWith arg ''--'' then AList.update (drop 2 arg) None result else result)"
| "extraArgsLoop_base (arg # nextArg # rest) result =
     (if startsWith arg ''--'' then
        (if isValue nextArg
         then extraArgsLoop_base rest (AList.update (drop 2 arg) (Some nextArg) result)
         else extraArgsLoop_base (nextArg # rest) (AList.update (drop 2 arg) None result))
      else extraArgsLoop_base (nextArg # rest) result)"

text \<open>\<open>!claudeArgs?.trim()\<close>: the argument is missing or blank.\<close>

definition blank :: "string option \<Rightarrow> bool" where
  "blank claudeArgs = (case claudeArgs of None \<Rightarrow> True | Some s \<Rightarrow> trim s = [])"

text \<open>\<open>parseClaudeArgsToExtraArgs\<close> with \<open>ACCUMULATING_FLAGS\<close>.\<close>

definition parseClaudeArgsToExtraArgs ::
  "(string \<Rightarrow> 'e + shell_entry list) \<Rightarrow> string option \<Rightarrow> 'e + flag_table" where
  "parseClaudeArgsToExtraArgs parseShellArgs claudeArgs =
     (if blank claudeArgs then Inr []
      else (case parseShellArgs (the claudeArgs) of
              Inl e \<Rightarrow> Inl e
            | Inr parsed \<Rightarrow> Inr (extraArgsLoop (strings_of parsed) [])))"

text \<open>\<open>parseClaudeArgsToExtraArgs\<close> of \<open>base-action/src/parse-sdk-options.ts\<close>.\<close>

definition parseClaudeArgsToExtraArgs_base ::
  "(string \<Rightarrow> 'e + shell_entry list) \<Rightarrow> string option \<Rightarrow> 'e + flag_table" where
  "parseClaudeArgsToExtraArgs_base parseShellArgs claudeArgs =
     (if blank claudeArgs then Inr []
      else (case parseShellArgs (the claudeArgs) of
              Inl e \<Rightarrow> Inl e
            | Inr parsed \<Rightarrow> Inr (extraArgsLoop_base (strings_of parsed) [])))"


text \<open>
  The token sequence both versions walk over (empty when the argument is blank or the
  tokenizer throws), and the number of times a flag \<open>--f\<close> is directly followed by a
  value in it. A token that starts with \<open>--\<close> is never consumed as a value, so each of
  these positions is one where the loop stores a value for \<open>f\<close>.
\<close>

definition argTokens :: "(string \<Rightarrow> 'e + shell_entry list) \<Rightarrow> string option \<Rightarrow> string list" where
  "argTokens parseShellArgs claudeArgs =
     (if blank claudeArgs then []
      else (case parseShellArgs (the claudeArgs) of
              Inl e \<Rightarrow> []
            | Inr parsed \<Rightarrow> strings_of parsed))"

fun valuedOccurrences :: "string \<Rightarrow> string list \<Rightarrow> nat" where
  "valuedOccurrences f [] = 0"
| "valuedOccurrences f [a] = 0"
| "valuedOccurrences f (a # b # rest) =
     (if a = ''--'' @ f \<and> isValue b then 1 else 0) + valuedOccurrences f (b # rest)"

section \<open>\<open>parseSdkOptions\<close>\<close>

record ClaudeOptions =
  claudeArgs :: "string option"
  model :: "string option"
  pathToClaudeCodeExecutable :: "string option"
  allowedTools :: "string option"
  disallowedTools :: "string option"
  maxTurns :: "string option"
  mcpConfig :: "string option"
  systemPrompt :: "string option"
  appendSystemPrompt :: "string option"
  claudeEnv :: "string option"
  fallbackModel :: "string option"
  showFullOutput :: "string option"

text \<open>
  \<open>SdkOptions["systemPrompt"]\<close>: a string, or the preset object
  \<open>{type: "preset", preset: "claude_code", append}\<close>.
\<close>

datatype system_prompt = PromptText string | PresetClaudeCode string

text \<open>
  The fields of \<open>SdkOptions\<close> that \<open>parseSdkOptions\<close> sets; \<open>undefined\<close> is \<open>None\<close>.
  \<open>'n\<close> is the type of JavaScript numbers: \<open>parseInt\<close> is a parameter.
\<close>

record 'n SdkOptions =
  sdk_model :: "string option"
  sdk_maxTurns :: "'n option"
  sdk_allowedTools :: "string list option"
  sdk_disallowedTools :: "string list option"
  sdk_systemPrompt :: "system_prompt option"
  sdk_fallbackModel :: "string option"
  sdk_pathToClaudeCodeExecutable :: "string option"
  extraArgs :: flag_table
  env :: "(string \<times> string) list"

record 'n ParsedSdkOptions =
  sdkOptions :: "'n SdkOptions"
  parsed_showFullOutput :: bool
  hasJsonSchema :: bool

text \<open>Truthiness of an optional string: \<open>undefined\<close> and \<open>""\<close> are falsy.\<close>

definition truthyStr :: "string option \<Rightarrow> bool" where
  "truthyStr v = (case v of None \<Rightarrow> False | Some s \<Rightarrow> s \<noteq> [])"

text \<open>\<open>v ? v.split(",").map((t) => t.trim()) : []\<close>, for an option and for a table entry.\<close>

definition splitTools :: "string \<Rightarrow> string list" where
  "splitTools v = map trim (split CHR '','' v)"

definition toolsOfOption :: "string option \<Rightarrow> string list" where
  "toolsOfOption v = (if truthyStr v then splitTools (the v) else [])"

definition toolsOfEntry :: "string option option \<Rightarrow> string list" where
  "toolsOfEntry e = (if truthy e then splitTools (the (the e)) else [])"

text \<open>
  \<open>[...new Set(xs)]\<close>: a \<open>Set\<close> keeps its elements in insertion order and ignores an
  element it already holds.
\<close>

definition setAdd :: "'a list \<Rightarrow> 'a \<Rightarrow> 'a list" where
  "setAdd elems x = (if x \<in> set elems then elems else elems @ [x])"

definition spreadSet :: "'a list \<Rightarrow> 'a list" where
  "spreadSet xs = foldl setAdd [] xs"

text \<open>\<open>merged.length > 0 ? merged : undefined\<close>.\<close>

definition nonEmptyOrUndefined :: "'a list \<Rightarrow> 'a list option" where
  "nonEmptyOrUndefined merged = (if merged \<noteq> [] then Some merged else None)"

text \<open>
  \<open>parseSdkOptions\<close> of the version with \<open>ACCUMULATING_FLAGS\<close>. Its parameters besides
  \<open>options\<close> are the tokenizer, \<open>parseInt(_, 10)\<close> and \<open>process.env\<close>.
\<close>

definition parseSdkOptions ::
  "(string \<Rightarrow> 'e + shell_entry list) \<Rightarrow> (string \<Rightarrow> 'n) \<Rightarrow> (string \<times> string) list \<Rightarrow>
   ClaudeOptions \<Rightarrow> 'e + 'n ParsedSdkOptions" where
  "parseSdkOptions parseShellArgs parseInt10 processEnv options =
     (let isDebugMode = (map_of processEnv ''ACTIONS_STEP_DEBUG'' = Some ''true'');
          showFull = (showFullOutput options = Some ''true'' \<or> isDebugMode)
      in case parseClaudeArgsToExtraArgs parseShellArgs (claudeArgs options) of
           Inl e \<Rightarrow> Inl e
         | Inr extraArgs0 \<Rightarrow>
            (let jsonSchema = (''json-schema'' \<in> fst ` set extraArgs0);
                 extraArgsAllowedTools = toolsOfEntry (map_of extraArgs0 ''allowedTools'');
                 directAllowedTools = toolsOfOption (allowedTools options);
                 mergedAllowedTools = spreadSet (extraArgsAllowedTools @ directAllowedTools);
                 extraArgs1 = AList.delete ''allowedTools'' extraArgs0;
                 extraArgsDisallowedTools = toolsOfEntry (map_of extraArgs1 ''disallowedTools'');
                 directDisallowedTools = toolsOfOption (disallowedTools options);
                 mergedDisallowedTools =
                   spreadSet (extraArgsDisallowedTools @ directDisallowedTools);
                 extraArgs2 = AList.delete ''disallowedTools'' extraArgs1;
                 env1 = (if truthyStr (map_of processEnv ''INPUT_ACTION_INPUTS_PRESENT'')
                         then AList.update ''GITHUB_ACTION_INPUTS''
                                (the (map_of processEnv ''INPUT_ACTION_INPUTS_PRESENT'')) processEnv
                         else processEnv);
                 prompt = (if truthyStr (systemPrompt options)
                           then Some (PromptText (the (systemPrompt options)))
                           else if truthyStr (appendSystemPrompt options)
                           then Some (PresetClaudeCode (the (appendSystemPrompt options)))
                           else None)
             in Inr \<lparr> sdkOptions =
                        \<lparr> sdk_model = model options,
                          sdk_maxTurns = (if truthyStr (maxTurns options)
                                          then Some (parseInt10 (the (maxTurns options)))
                                          else None),
                          sdk_allowedTools = nonEmptyOrUndefined mergedAllowedTools,
                          sdk_disallowedTools = nonEmptyOrUndefined mergedDisallowedTools,
                          sdk_systemPrompt = prompt,
                          sdk_fallbackModel = fallbackModel options,
                          sdk_pathToClaudeCodeExecutable = pathToClaudeCodeExecutable options,
                          extraArgs = extraArgs2,
                          env = env1 \<rparr>,
                      parsed_showFullOutput = showFull,
                      hasJsonSchema = jsonSchema \<rparr>))"

text \<open>
  The union of two lists that keeps each value at its earliest position: the head, then
  the rest without the head's value.
\<close>

function firstSeen :: "'a list \<Rightarrow> 'a list" where
  "firstSeen [] = []"
| "firstSeen (x # xs) = x # firstSeen (filter (\<lambda>y. y \<noteq> x) xs)"
  by pat_completeness auto
termination
  by (relation "measure length") (auto simp: less_Suc_eq_le)

section \<open>\<open>prepareRunConfig\<close>\<close>

definition BASE_ARGS :: "string list" where
  "BASE_ARGS = [''--verbose'', ''--output-format'', ''stream-json'']"

record PreparedConfig =
  config_claudeArgs :: "string list"
  promptPath :: string
  config_env :: "(string \<times> string) list"

definition prepareRunConfig ::
  "(string \<Rightarrow> 'e + shell_entry list) \<Rightarrow> (string \<times> string) list \<Rightarrow> string \<Rightarrow> ClaudeOptions \<Rightarrow>
   'e + PreparedConfig" where
  "prepareRunConfig parseShellArgs processEnv path options =
     (case (if \<not> blank (claudeArgs options)
            then (case parseShellArgs (the (claudeArgs options)) of
                    Inl e \<Rightarrow> Inl e
                  | Inr parsed \<Rightarrow> Inr ([''-p''] @ strings_of parsed))
            else Inr [''-p'']) of
        Inl e \<Rightarrow> Inl e
      | Inr args \<Rightarrow>
          Inr \<lparr> config_claudeArgs = args @ BASE_ARGS,
                promptPath = path,
                config_env =
                  (if truthyStr (map_of processEnv ''INPUT_ACTION_INPUTS_PRESENT'')
                   then [(''GITHUB_ACTION_INPUTS'',
                          the (map_of processEnv ''INPUT_ACTION_INPUTS_PRESENT''))]
                   else []) \<rparr>)"


section \<open>The tokenizer and \<open>parseInt\<close>\<close>

datatype error = MalformedArgumentString

definition isQuote :: "char \<Rightarrow> bool" where
  "isQuote c = (c = CHR 0x22 \<or> c = CHR 0x27)"

text \<open>
  Modelled from the spec: the tokenizer (\<open>parse\<close> of the library shell-quote) is not
  under src/. The argument string is split on white space outside of quotes; a double- or
  single-quoted span is taken literally, without its quotes, into the token it occurs in;
  a quote that is still open at the end of the string is the failure
  \<open>MalformedArgumentString\<close>. The spec names no escape character, so a backslash is an
  ordinary character here. The state is the open quote (if any) and the token being built
  (if any).
\<close>

fun tokenizeFrom :: "char option \<Rightarrow> string option \<Rightarrow> string \<Rightarrow> error + string list" where
  "tokenizeFrom None cur [] = Inr (case cur of None \<Rightarrow> [] | Some t \<Rightarrow> [t])"
| "tokenizeFrom (Some q) cur [] = Inl MalformedArgumentString"
| "tokenizeFrom None cur (c # cs) =
     (if isQuote c then tokenizeFrom (Some c) (Some (case cur of None \<Rightarrow> [] | Some t \<Rightarrow> t)) cs
      else if isSpace c then
        (case cur of
           None \<Rightarrow> tokenizeFrom None None cs
         | Some t \<Rightarrow> (case tokenizeFrom None None cs of
                       Inl e \<Rightarrow> Inl e
                     | Inr ts \<Rightarrow> Inr (t # ts)))
      else tokenizeFrom None (Some ((case cur of None \<Rightarrow> [] | Some t \<Rightarrow> t) @ [c])) cs)"
| "tokenizeFrom (Some q) cur (c # cs) =
     (if c = q then tokenizeFrom None cur cs
      else tokenizeFrom (Some q) (Some ((case cur of None \<Rightarrow> [] | Some t \<Rightarrow> t) @ [c])) cs)"

definition tokenize :: "string \<Rightarrow> error + shell_entry list" where
  "tokenize argString =
     (case tokenizeFrom None None argString of
        Inl e \<Rightarrow> Inl e
      | Inr ts \<Rightarrow> Inr (map Str ts))"



text \<open>
  \<open>parseInt(s, 10)\<close> on exact integers: leading white space, an optional sign, the
  longest prefix of decimal digits; \<open>None\<close> is \<open>NaN\<close>. (The rounding of JavaScript numbers
  beyond \<open>2^53\<close> is not modelled; \<open>parseSdkOptions\<close> takes the function as a parameter.)
\<close>

definition isDigit :: "char \<Rightarrow> bool" where
  "isDigit c = (48 \<le> (of_char c :: nat) \<and> (of_char c :: nat) \<le> 57)"

definition digitsValue :: "string \<Rightarrow> int" where
  "digitsValue ds = foldl (\<lambda>acc c. 10 * acc + (int (of_char c) - 48)) 0 ds"

definition parseInt10 :: "string \<Rightarrow> int option" where
  "parseInt10 s =
     (let t = dropWhile isSpace s;
          neg = (t \<noteq> [] \<and> hd t = CHR ''-'');
          u = (if t \<noteq> [] \<and> (hd t = CHR ''-'' \<or> hd t = CHR ''+'') then tl t else t);
          z = takeWhile isDigit u
      in if z = [] then None
         else Some (if neg then - digitsValue z else digitsValue z))"

section \<open>\<open>parseAllowedTools\<close>\<close>

definition flagLiteral :: string where
  "flagLiteral = ''--allowedTools''"

text \<open>
  The regular expressions \<open>/--allowedTools\s+"([^"]+)"/\<close> and
  \<open>/--allowedTools\s+'([^']+)'/\<close> tried at the head of a string; the result is the
  captured group. After the literal, \<open>\s+\<close> takes the whole run of white space (the
  character after a shorter run is white space and cannot be the quote), and the group
  takes the whole run of characters other than the quote (only the quote itself can
  follow the group).
\<close>

definition matchQuotedAt :: "char \<Rightarrow> string \<Rightarrow> string option" where
  "matchQuotedAt q s =
     (if startsWith s flagLiteral then
        (let r = drop (length flagLiteral) s;
             ws = takeWhile isSpace r;
             r' = dropWhile isSpace r
         in if ws = [] then None
            else (case r' of
                    [] \<Rightarrow> None
                  | c # cs \<Rightarrow>
                      if c \<noteq> q then None
                      else (let body = takeWhile (\<lambda>x. x \<noteq> q) cs;
                                after = dropWhile (\<lambda>x. x \<noteq> q) cs
                            in if body = [] \<or> after = [] then None else Some body)))
      else None)"

text \<open>
  \<open>/--allowedTools\s+([^\s]+)/\<close> at the head of a string: the run of white space, then
  the run of characters that are not white space, both not empty.
\<close>

definition matchUnquotedAt :: "string \<Rightarrow> string option" where
  "matchUnquotedAt s =
     (if startsWith s flagLiteral then
        (let r = drop (length flagLiteral) s;
             ws = takeWhile isSpace r;
             v = takeWhile (\<lambda>x. \<not> isSpace x) (dropWhile isSpace r)
         in if ws = [] \<or> v = [] then None else Some v)
      else None)"

text \<open>\<open>claudeArgs.match(pattern)\<close> without the \<open>g\<close> flag: the leftmost match.\<close>

fun firstMatch :: "(string \<Rightarrow> string option) \<Rightarrow> string \<Rightarrow> string option" where
  "firstMatch m [] = m []"
| "firstMatch m (c # cs) =
     (case m (c # cs) of
        Some g \<Rightarrow> Some g
      | None \<Rightarrow> firstMatch m cs)"

definition patterns :: "(string \<Rightarrow> string option) list" where
  "patterns = [matchQuotedAt (CHR 0x22), matchQuotedAt (CHR 0x27), matchUnquotedAt]"



text \<open>
  The value that \<open>parseAllowedTools\<close> locates: the group of the first pattern, in the
  order double-quoted, single-quoted, unquoted, that matches anywhere in the string.
\<close>

fun locatedValue :: "(string \<Rightarrow> string option) list \<Rightarrow> string \<Rightarrow> string option" where
  "locatedValue [] argString = None"
| "locatedValue (pattern # rest) argString =
     (case firstMatch pattern argString of
        Some g \<Rightarrow> if g \<noteq> [] then Some g else locatedValue rest argString
      | None \<Rightarrow> locatedValue rest argString)"


section \<open>The sanitization pipeline\<close>

text \<open>
  Content strings are sequences of UTF-16 code units, as JavaScript strings are; a code
  unit is a natural number. \<open>ascii\<close> reads a literal.
\<close>

type_synonym ustring = "nat list"

definition ascii :: "string \<Rightarrow> ustring" where
  "ascii s = map of_char s"



definition isAlnum :: "nat \<Rightarrow> bool" where
  "isAlnum c = ((48 \<le> c \<and> c \<le> 57) \<or> (65 \<le> c \<and> c \<le> 90) \<or> (97 \<le> c \<and> c \<le> 122))"

definition isWordChar :: "nat \<Rightarrow> bool" where
  "isWordChar c = (isAlnum c \<or> c = 95)"








































section \<open>Values used in the statements\<close>

text \<open>An optional list read as a list: \<open>undefined\<close> is the empty list.\<close>

definition listOf :: "'a list option \<Rightarrow> 'a list" where
  "listOf v = (case v of None \<Rightarrow> [] | Some xs \<Rightarrow> xs)"

text \<open>The options object \<open>{}\<close>: every field is \<open>undefined\<close>.\<close>

definition noOptions :: ClaudeOptions where
  "noOptions = \<lparr> claudeArgs = None, model = None, pathToClaudeCodeExecutable = None,
     allowedTools = None, disallowedTools = None, maxTurns = None, mcpConfig = None,
     systemPrompt = None, appendSystemPrompt = None, claudeEnv = None, fallbackModel = None,
     showFullOutput = None \<rparr>"

section \<open>The flag table builder\<close>

lemma startsWith_dashes_append [simp]: "startsWith (''--'' @ f) ''--''"
  by (simp add: startsWith_def)

lemma startsWith_dashes_drop: "startsWith a ''--'' \<Longrightarrow> ''--'' @ drop 2 a = a"
  unfolding startsWith_def
  by (metis append_take_drop_id length_Cons list.size(3) numeral_2_eq_2)

lemma flag_not_value: "startsWith a ''--'' \<Longrightarrow> \<not> isValue a"
  by (simp add: isValue_def)

lemma extraArgsLoop_snoc:
  "startsWith a ''--'' \<Longrightarrow> isValue v \<Longrightarrow>
   extraArgsLoop (ts @ [a, v]) r = storeValue (extraArgsLoop ts r) (drop 2 a) v"
  by (induction ts r rule: extraArgsLoop.induct) (simp_all add: flag_not_value)

definition storedValuesTruthy :: "flag_table \<Rightarrow> bool" where
  "storedValuesTruthy r = (\<forall>f v. map_of r f = Some (Some v) \<longrightarrow> v \<noteq> [])"

lemma storedValuesTruthy_null:
  "storedValuesTruthy r \<Longrightarrow> storedValuesTruthy (AList.update f None r)"
  by (simp add: storedValuesTruthy_def update_conv')

lemma storedValuesTruthy_store:
  "storedValuesTruthy r \<Longrightarrow> isValue v \<Longrightarrow> storedValuesTruthy (storeValue r f v)"
  by (simp add: storedValuesTruthy_def storeValue_def isValue_def update_conv')

lemma storedValuesTruthy_loop:
  "storedValuesTruthy r \<Longrightarrow> storedValuesTruthy (extraArgsLoop ts r)"
  by (induction ts r rule: extraArgsLoop.induct)
     (simp_all add: storedValuesTruthy_null storedValuesTruthy_store)

text \<open>
  C5. For every token sequence \<open>ts\<close>: when the builder has processed \<open>ts\<close>, holds the
  value \<open>old\<close> for an accumulating flag and then meets the flag again with the value \<open>v\<close>,
  the new value does not overwrite the old one: the table then holds \<open>old,v\<close> for the
  flag, whether or not \<open>v\<close> repeats values of \<open>old\<close>, and every other key is untouched.
  (A repeated occurrence without a value stores \<open>null\<close>, as for every flag.)
\<close>

theorem accumulating_flag_appends:
  assumes "flag \<in> ACCUMULATING_FLAGS" and "isValue v"
    and "map_of (extraArgsLoop ts []) flag = Some (Some old)"
  shows "extraArgsLoop (ts @ [''--'' @ flag, v]) [] =
         AList.update flag (Some (old @ '','' @ v)) (extraArgsLoop ts [])"
proof -
  have "storedValuesTruthy (extraArgsLoop ts [])"
    by (rule storedValuesTruthy_loop) (simp add: storedValuesTruthy_def)
  with assms(3) have "old \<noteq> []"
    by (auto simp: storedValuesTruthy_def)
  moreover have "startsWith (''--'' @ flag) ''--''" by (simp add: startsWith_def)
  moreover have "drop 2 (''--'' @ flag) = flag" by simp
  ultimately show ?thesis
    using assms extraArgsLoop_snoc[of "''--'' @ flag" v ts "[]"]
    by (simp add: storeValue_def)
qed

theorem accumulating_flag_appends_witness:
  "''allowedTools'' \<in> ACCUMULATING_FLAGS \<and>
   isValue ''Bash,Edit'' \<and>
   map_of (extraArgsLoop [''--allowedTools'', ''Edit,Read'', ''--model'', ''x''] [])
     ''allowedTools'' = Some (Some ''Edit,Read'') \<and>
   extraArgsLoop ([''--allowedTools'', ''Edit,Read'', ''--model'', ''x''] @
                  [''--'' @ ''allowedTools'', ''Bash,Edit'']) [] =
     AList.update ''allowedTools'' (Some (''Edit,Read'' @ '','' @ ''Bash,Edit''))
       (extraArgsLoop [''--allowedTools'', ''Edit,Read'', ''--model'', ''x''] [])"
proof -
  have h1: "''allowedTools'' \<in> ACCUMULATING_FLAGS"
    by (simp add: ACCUMULATING_FLAGS_def)
  have h2: "isValue ''Bash,Edit''"
    by (simp add: isValue_def startsWith_def)
  have h3: "map_of (extraArgsLoop [''--allowedTools'', ''Edit,Read'', ''--model'', ''x''] [])
              ''allowedTools'' = Some (Some ''Edit,Read'')"
    by (simp add: isValue_def startsWith_def storeValue_def)
  show ?thesis
    by (intro conjI h1 h2 h3 accumulating_flag_appends[OF h1 h2 h3])
qed


lemma valuedOccurrences_tl: "valuedOccurrences f rest \<le> valuedOccurrences f (b # rest)"
  by (cases rest) simp_all

definition atMostOnce :: "string list \<Rightarrow> flag_table \<Rightarrow> bool" where
  "atMostOnce ts r =
     (\<forall>f\<in>ACCUMULATING_FLAGS.
        valuedOccurrences f ts + (if truthy (map_of r f) then 1 else 0) \<le> 1)"

lemma atMostOnce_skip: "atMostOnce (a # b # rest) r \<Longrightarrow> atMostOnce (b # rest) r"
  unfolding atMostOnce_def
proof
  fix f assume "\<forall>f\<in>ACCUMULATING_FLAGS.
      valuedOccurrences f (a # b # rest) + (if truthy (map_of r f) then 1 else 0) \<le> 1"
    and "f \<in> ACCUMULATING_FLAGS"
  then have "valuedOccurrences f (a # b # rest) + (if truthy (map_of r f) then 1 else 0) \<le> 1"
    by blast
  moreover have "valuedOccurrences f (b # rest) \<le> valuedOccurrences f (a # b # rest)"
    by (rule valuedOccurrences_tl)
  ultimately show "valuedOccurrences f (b # rest) + (if truthy (map_of r f) then 1 else 0) \<le> 1"
    by linarith
qed

lemma atMostOnce_null:
  "atMostOnce (a # b # rest) r \<Longrightarrow> atMostOnce (b # rest) (AList.update k None r)"
  unfolding atMostOnce_def
proof
  fix f assume "\<forall>f\<in>ACCUMULATING_FLAGS.
      valuedOccurrences f (a # b # rest) + (if truthy (map_of r f) then 1 else 0) \<le> 1"
    and "f \<in> ACCUMULATING_FLAGS"
  then have "valuedOccurrences f (a # b # rest) + (if truthy (map_of r f) then 1 else 0) \<le> 1"
    by blast
  moreover have "valuedOccurrences f (b # rest) \<le> valuedOccurrences f (a # b # rest)"
    by (rule valuedOccurrences_tl)
  moreover have "(if truthy (map_of (AList.update k None r) f) then 1 else 0)
                 \<le> (if truthy (map_of r f) then 1 else (0::nat))"
    by (simp add: update_conv')
  ultimately show "valuedOccurrences f (b # rest) +
                   (if truthy (map_of (AList.update k None r) f) then 1 else 0) \<le> 1"
    by linarith
qed

lemma atMostOnce_plain:
  assumes "atMostOnce (a # b # rest) r" and "startsWith a ''--''" and "isValue b"
  shows "storeValue r (drop 2 a) b = AList.update (drop 2 a) (Some b) r"
proof (cases "drop 2 a \<in> ACCUMULATING_FLAGS \<and> truthy (map_of r (drop 2 a))")
  case False
  then show ?thesis by (auto simp: storeValue_def)
next
  case True
  have "valuedOccurrences (drop 2 a) ((''--'' @ drop 2 a) # b # rest) \<ge> 1"
    using assms(3) by simp
  then have "valuedOccurrences (drop 2 a) (a # b # rest) \<ge> 1"
    by (simp only: startsWith_dashes_drop[OF assms(2)])
  moreover have "valuedOccurrences (drop 2 a) (a # b # rest) +
                 (if truthy (map_of r (drop 2 a)) then 1 else 0) \<le> 1"
    using assms(1) True unfolding atMostOnce_def by blast
  ultimately show ?thesis using True by simp
qed

lemma atMostOnce_store:
  assumes "atMostOnce (a # b # rest) r" and "startsWith a ''--''" and "isValue b"
  shows "atMostOnce rest (AList.update (drop 2 a) (Some b) r)"
  unfolding atMostOnce_def
proof
  fix f assume f: "f \<in> ACCUMULATING_FLAGS"
  have le: "valuedOccurrences f rest \<le> valuedOccurrences f (b # rest)"
    by (rule valuedOccurrences_tl)
  have h: "valuedOccurrences f (a # b # rest) + (if truthy (map_of r f) then 1 else 0) \<le> 1"
    using assms(1) f unfolding atMostOnce_def by blast
  show "valuedOccurrences f rest +
        (if truthy (map_of (AList.update (drop 2 a) (Some b) r) f) then 1 else 0) \<le> 1"
  proof (cases "f = drop 2 a")
    case True
    with assms(3) have "valuedOccurrences f ((''--'' @ drop 2 a) # b # rest) =
      1 + valuedOccurrences f (b # rest)" by simp
    then have "valuedOccurrences f (a # b # rest) = 1 + valuedOccurrences f (b # rest)"
      by (simp only: startsWith_dashes_drop[OF assms(2)])
    with h le show ?thesis by (simp add: update_conv')
  next
    case False
    with h le show ?thesis by (simp add: update_conv')
  qed
qed

lemma loops_agree: "atMostOnce ts r \<Longrightarrow> extraArgsLoop ts r = extraArgsLoop_base ts r"
proof (induction ts r rule: extraArgsLoop.induct)
  case (1 result)
  then show ?case by simp
next
  case (2 arg result)
  then show ?case by simp
next
  case (3 arg nextArg rest result)
  show ?case
  proof (cases "startsWith arg ''--''")
    case False
    with "3.IH"(3) atMostOnce_skip[OF "3.prems"] show ?thesis by simp
  next
    case flag: True
    show ?thesis
    proof (cases "isValue nextArg")
      case False
      with flag "3.IH"(2) atMostOnce_null[OF "3.prems"] show ?thesis by simp
    next
      case True
      note plain = atMostOnce_plain[OF "3.prems" flag True]
      have "atMostOnce rest (storeValue result (drop 2 arg) nextArg)"
        using atMostOnce_store[OF "3.prems" flag True] by (simp add: plain)
      with flag True "3.IH"(1) show ?thesis by (simp add: plain)
    qed
  qed
qed

text \<open>
  C10. The two versions of \<open>parseClaudeArgsToExtraArgs\<close> return equal flag tables (or
  the same tokenizer failure) for every argument string in whose tokens neither
  \<open>--allowedTools\<close> nor \<open>--disallowedTools\<close> is followed by a value more than once.
\<close>

theorem parsers_agree:
  assumes "\<forall>f\<in>ACCUMULATING_FLAGS. valuedOccurrences f (argTokens parseShellArgs argString) \<le> 1"
  shows "parseClaudeArgsToExtraArgs_base parseShellArgs argString =
         parseClaudeArgsToExtraArgs parseShellArgs argString"
proof (cases "blank argString")
  case True
  then show ?thesis
    by (simp add: parseClaudeArgsToExtraArgs_def parseClaudeArgsToExtraArgs_base_def)
next
  case False
  show ?thesis
  proof (cases "parseShellArgs (the argString)")
    case (Inl e)
    with False show ?thesis
      by (simp add: parseClaudeArgsToExtraArgs_def parseClaudeArgsToExtraArgs_base_def)
  next
    case (Inr parsed)
    with False assms have "atMostOnce (strings_of parsed) []"
      by (simp add: atMostOnce_def argTokens_def)
    then have "extraArgsLoop (strings_of parsed) [] = extraArgsLoop_base (strings_of parsed) []"
      by (rule loops_agree)
    with False Inr show ?thesis
      by (simp add: parseClaudeArgsToExtraArgs_def parseClaudeArgsToExtraArgs_base_def)
  qed
qed

theorem parsers_agree_witness:
  "valuedOccurrences ''allowedTools''
     (argTokens tokenize (Some ''--allowedTools Edit,Read --model x --allowedTools'')) \<le> 1 \<and>
   valuedOccurrences ''disallowedTools''
     (argTokens tokenize (Some ''--allowedTools Edit,Read --model x --allowedTools'')) \<le> 1 \<and>
   parseClaudeArgsToExtraArgs_base tokenize
     (Some ''--allowedTools Edit,Read --model x --allowedTools'') =
   parseClaudeArgsToExtraArgs tokenize
     (Some ''--allowedTools Edit,Read --model x --allowedTools'')"
proof -
  have h1: "valuedOccurrences ''allowedTools''
     (argTokens tokenize (Some ''--allowedTools Edit,Read --model x --allowedTools'')) \<le> 1"
    by code_simp
  have h2: "valuedOccurrences ''disallowedTools''
     (argTokens tokenize (Some ''--allowedTools Edit,Read --model x --allowedTools'')) \<le> 1"
    by code_simp
  have h: "\<forall>f\<in>ACCUMULATING_FLAGS. valuedOccurrences f
     (argTokens tokenize (Some ''--allowedTools Edit,Read --model x --allowedTools'')) \<le> 1"
    using h1 h2 by (simp add: ACCUMULATING_FLAGS_def)
  show ?thesis
    by (intro conjI h1 h2 parsers_agree[OF h])
qed


subsection \<open>Sets in insertion order\<close>

lemma foldl_setAdd_snoc:
  "foldl setAdd acc (xs @ [x]) = setAdd (foldl setAdd acc xs) x"
  by simp

lemma set_firstSeen: "set (firstSeen xs) = set xs"
  by (induction xs rule: firstSeen.induct) auto

lemma distinct_firstSeen: "distinct (firstSeen xs)"
  by (induction xs rule: firstSeen.induct) (auto simp: set_firstSeen)

lemma firstSeen_filter:
  "firstSeen (filter P xs) = filter P (firstSeen xs)"
proof (induction xs rule: firstSeen.induct)
  case 1
  then show ?case by simp
next
  case (2 x xs)
  have comm: "filter P (filter (\<lambda>y. y \<noteq> x) xs) = filter (\<lambda>y. y \<noteq> x) (filter P xs)"
    by (induction xs) auto
  show ?case
  proof (cases "P x")
    case True
    with 2 comm show ?thesis by simp
  next
    case False
    have "filter P (filter (\<lambda>y. y \<noteq> x) xs) = filter P xs"
      using False by (induction xs) auto
    with 2 False show ?thesis by simp
  qed
qed

lemma foldl_setAdd_firstSeen:
  "distinct acc \<Longrightarrow>
   foldl setAdd acc xs = acc @ firstSeen (filter (\<lambda>y. y \<notin> set acc) xs)"
proof (induction xs arbitrary: acc)
  case Nil
  then show ?case by simp
next
  case (Cons x xs)
  show ?case
  proof (cases "x \<in> set acc")
    case True
    with Cons show ?thesis by (simp add: setAdd_def)
  next
    case False
    have d: "distinct (acc @ [x])" using Cons.prems False by simp
    have f: "filter (\<lambda>y. y \<notin> set (acc @ [x])) xs =
             filter (\<lambda>y. y \<noteq> x) (filter (\<lambda>y. y \<notin> set acc) xs)"
      by (induction xs) auto
    from False have "foldl setAdd acc (x # xs) = foldl setAdd (acc @ [x]) xs"
      by (simp add: setAdd_def)
    also have "\<dots> = (acc @ [x]) @ firstSeen (filter (\<lambda>y. y \<notin> set (acc @ [x])) xs)"
      by (rule Cons.IH[OF d])
    also have "\<dots> = acc @ x # firstSeen (filter (\<lambda>y. y \<noteq> x) (filter (\<lambda>y. y \<notin> set acc) xs))"
      by (simp only: f append_assoc append_Cons append_Nil)
    also have "\<dots> = acc @ firstSeen (filter (\<lambda>y. y \<notin> set acc) (x # xs))"
      using False by (simp only: filter.simps firstSeen.simps if_True simp_thms)
    finally show ?thesis .
  qed
qed

lemma spreadSet_firstSeen: "spreadSet xs = firstSeen xs"
  using foldl_setAdd_firstSeen[of "[]" xs] by (simp add: spreadSet_def)

lemma listOf_nonEmptyOrUndefined: "listOf (nonEmptyOrUndefined xs) = xs"
  by (simp add: listOf_def nonEmptyOrUndefined_def)

lemma map_of_delete_other: "k \<noteq> k' \<Longrightarrow> map_of (AList.delete k al) k' = map_of al k'"
  by (simp add: delete_conv')

lemma map_of_delete_same: "map_of (AList.delete k al) k = None"
  by (simp add: delete_conv')

lemma parseSdkOptions_Inr:
  assumes "parseClaudeArgsToExtraArgs parseShellArgs (claudeArgs options) = Inr table"
  shows "parseSdkOptions parseShellArgs parseInt processEnv options =
    Inr \<lparr> sdkOptions =
            \<lparr> sdk_model = model options,
              sdk_maxTurns = (if truthyStr (maxTurns options)
                              then Some (parseInt (the (maxTurns options))) else None),
              sdk_allowedTools = nonEmptyOrUndefined (spreadSet
                 (toolsOfEntry (map_of table ''allowedTools'') @
                  toolsOfOption (allowedTools options))),
              sdk_disallowedTools = nonEmptyOrUndefined (spreadSet
                 (toolsOfEntry (map_of table ''disallowedTools'') @
                  toolsOfOption (disallowedTools options))),
              sdk_systemPrompt =
                (if truthyStr (systemPrompt options)
                 then Some (PromptText (the (systemPrompt options)))
                 else if truthyStr (appendSystemPrompt options)
                 then Some (PresetClaudeCode (the (appendSystemPrompt options)))
                 else None),
              sdk_fallbackModel = fallbackModel options,
              sdk_pathToClaudeCodeExecutable = pathToClaudeCodeExecutable options,
              extraArgs = AList.delete ''disallowedTools'' (AList.delete ''allowedTools'' table),
              env = (if truthyStr (map_of processEnv ''INPUT_ACTION_INPUTS_PRESENT'')
                     then AList.update ''GITHUB_ACTION_INPUTS''
                            (the (map_of processEnv ''INPUT_ACTION_INPUTS_PRESENT'')) processEnv
                     else processEnv) \<rparr>,
          parsed_showFullOutput =
            (showFullOutput options = Some ''true'' \<or>
             map_of processEnv ''ACTIONS_STEP_DEBUG'' = Some ''true''),
          hasJsonSchema = (''json-schema'' \<in> fst ` set table) \<rparr>"
  unfolding parseSdkOptions_def Let_def assms
  by (simp add: map_of_delete_other)


text \<open>
  C1. Whenever the tokenizer returns, \<open>parseSdkOptions\<close> returns, and for each of
  \<open>allowedTools\<close> and \<open>disallowedTools\<close> the list in the result is the union of the
  comma-split (and trimmed) value of the free-form table followed by the comma-split (and
  trimmed) structured option, with each value kept at its earliest position: it has no
  duplicates and exactly the values of the two sources (\<open>undefined\<close> stands for the
  empty list). Neither key is left in \<open>extraArgs\<close>, so the flag is emitted once.
\<close>

theorem accumulating_flags_union:
  assumes "parseClaudeArgsToExtraArgs parseShellArgs (claudeArgs options) = Inr table"
  shows "\<exists>r. parseSdkOptions parseShellArgs parseInt processEnv options = Inr r \<and>
    listOf (sdk_allowedTools (sdkOptions r)) =
      firstSeen (toolsOfEntry (map_of table ''allowedTools'') @
                 toolsOfOption (allowedTools options)) \<and>
    listOf (sdk_disallowedTools (sdkOptions r)) =
      firstSeen (toolsOfEntry (map_of table ''disallowedTools'') @
                 toolsOfOption (disallowedTools options)) \<and>
    distinct (listOf (sdk_allowedTools (sdkOptions r))) \<and>
    distinct (listOf (sdk_disallowedTools (sdkOptions r))) \<and>
    set (listOf (sdk_allowedTools (sdkOptions r))) =
      set (toolsOfEntry (map_of table ''allowedTools'')) \<union>
      set (toolsOfOption (allowedTools options)) \<and>
    set (listOf (sdk_disallowedTools (sdkOptions r))) =
      set (toolsOfEntry (map_of table ''disallowedTools'')) \<union>
      set (toolsOfOption (disallowedTools options)) \<and>
    (\<forall>flag\<in>ACCUMULATING_FLAGS. flag \<notin> fst ` set (extraArgs (sdkOptions r)))"
proof -
  have keys: "\<forall>flag\<in>ACCUMULATING_FLAGS.
      flag \<notin> fst ` set (AList.delete ''disallowedTools'' (AList.delete ''allowedTools'' table))"
  proof -
    have "''disallowedTools'' \<notin>
          fst ` set (AList.delete ''disallowedTools'' (AList.delete ''allowedTools'' table))"
      by (rule delete_notin_dom)
    moreover have "''allowedTools'' \<notin>
          fst ` set (AList.delete ''disallowedTools'' (AList.delete ''allowedTools'' table))"
      by (subst delete_twist) (rule delete_notin_dom)
    ultimately show ?thesis by (simp add: ACCUMULATING_FLAGS_def)
  qed
  show ?thesis
    unfolding parseSdkOptions_Inr[OF assms]
    using keys
    by (simp add: listOf_nonEmptyOrUndefined spreadSet_firstSeen set_firstSeen
        distinct_firstSeen)
qed

theorem accumulating_flags_union_witness:
  "parseClaudeArgsToExtraArgs tokenize
     (claudeArgs (noOptions\<lparr>claudeArgs := Some ''--allowedTools Edit,Read --model x'',
                            allowedTools := Some ''Edit, Write''\<rparr>)) =
     Inr [(''allowedTools'', Some ''Edit,Read''), (''model'', Some ''x'')] \<and>
   listOf (sdk_allowedTools (sdkOptions (projr (parseSdkOptions tokenize parseInt10 []
     (noOptions\<lparr>claudeArgs := Some ''--allowedTools Edit,Read --model x'',
                 allowedTools := Some ''Edit, Write''\<rparr>))))) =
     [''Edit'', ''Read'', ''Write''] \<and>
   extraArgs (sdkOptions (projr (parseSdkOptions tokenize parseInt10 []
     (noOptions\<lparr>claudeArgs := Some ''--allowedTools Edit,Read --model x'',
                 allowedTools := Some ''Edit, Write''\<rparr>)))) = [(''model'', Some ''x'')]"
proof -
  let ?options = "noOptions\<lparr>claudeArgs := Some ''--allowedTools Edit,Read --model x'',
                            allowedTools := Some ''Edit, Write''\<rparr>"
  let ?table = "[(''allowedTools'', Some ''Edit,Read''), (''model'', Some ''x'')]"
  have h: "parseClaudeArgsToExtraArgs tokenize (claudeArgs ?options) = Inr ?table"
    by code_simp
  from accumulating_flags_union[OF h, of parseInt10 "[]"]
  obtain r where r: "parseSdkOptions tokenize parseInt10 [] ?options = Inr r"
    and merged: "listOf (sdk_allowedTools (sdkOptions r)) =
      firstSeen (toolsOfEntry (map_of ?table ''allowedTools'') @
                 toolsOfOption (allowedTools ?options))"
    by blast
  have tools: "firstSeen (toolsOfEntry (map_of ?table ''allowedTools'') @
                 toolsOfOption (allowedTools ?options)) = [''Edit'', ''Read'', ''Write'']"
    by code_simp
  have extra: "extraArgs (sdkOptions (projr (parseSdkOptions tokenize parseInt10 [] ?options))) =
               [(''model'', Some ''x'')]"
    by code_simp
  from r merged tools extra h show ?thesis by simp
qed






lemma argTokens_Inr:
  "\<not> blank ca \<Longrightarrow> parseShellArgs (the ca) = Inr parsed \<Longrightarrow>
   argTokens parseShellArgs ca = strings_of parsed"
  by (simp add: argTokens_def)

text \<open>
  C9. For every options value, \<open>prepareRunConfig\<close> fails only when the tokenizer fails on
  a non-blank \<open>claudeArgs\<close>; otherwise its argument vector is \<open>-p\<close>, then the tokens of
  \<open>claudeArgs\<close>, then \<open>--verbose --output-format stream-json\<close>: the first element
  is \<open>-p\<close> and the last three are \<open>BASE_ARGS\<close>, whatever \<open>claudeArgs\<close> holds.
\<close>

theorem prepared_args_framed:
  "(case prepareRunConfig parseShellArgs processEnv path options of
      Inl e \<Rightarrow> \<not> blank (claudeArgs options) \<and> parseShellArgs (the (claudeArgs options)) = Inl e
    | Inr config \<Rightarrow>
        config_claudeArgs config =
          [''-p''] @ argTokens parseShellArgs (claudeArgs options) @
          [''--verbose'', ''--output-format'', ''stream-json''] \<and>
        hd (config_claudeArgs config) = ''-p'' \<and>
        drop (length (config_claudeArgs config) - 3) (config_claudeArgs config) = BASE_ARGS)"
proof (cases "blank (claudeArgs options)")
  case True
  then show ?thesis
    by (simp add: prepareRunConfig_def argTokens_def BASE_ARGS_def)
next
  case False
  show ?thesis
  proof (cases "parseShellArgs (the (claudeArgs options))")
    case (Inl e)
    with False show ?thesis by (simp add: prepareRunConfig_def)
  next
    case (Inr parsed)
    with False show ?thesis
      by (simp add: prepareRunConfig_def argTokens_def BASE_ARGS_def)
  qed
qed

theorem prepared_args_framed_witness:
  "config_claudeArgs (projr (prepareRunConfig tokenize [] ''/tmp/prompt''
     (noOptions\<lparr>claudeArgs := Some ''--output-format json -p''\<rparr>))) =
   [''-p'', ''--output-format'', ''json'', ''-p'', ''--verbose'', ''--output-format'',
    ''stream-json'']"
proof -
  let ?options = "noOptions\<lparr>claudeArgs := Some ''--output-format json -p''\<rparr>"
  have r: "prepareRunConfig tokenize [] ''/tmp/prompt'' ?options =
           Inr (projr (prepareRunConfig tokenize [] ''/tmp/prompt'' ?options))"
    by code_simp
  have t: "argTokens tokenize (claudeArgs ?options) = [''--output-format'', ''json'', ''-p'']"
    by code_simp
  from prepared_args_framed[where parseShellArgs = tokenize and processEnv = "[]"
      and path = "''/tmp/prompt''" and options = ?options]
  have "config_claudeArgs (projr (prepareRunConfig tokenize [] ''/tmp/prompt'' ?options)) =
        [''-p''] @ argTokens tokenize (claudeArgs ?options) @
        [''--verbose'', ''--output-format'', ''stream-json'']"
    by (subst (asm) r) simp
  then show ?thesis by (simp only: t append_Cons append_Nil)
qed


subsection \<open>Tokenizer\<close>










subsection \<open>trim and split\<close>





subsection \<open>parseAllowedTools\<close>




lemma firstMatch_head: "m s = Some g \<Longrightarrow> firstMatch m s = Some g"
  by (cases s) simp_all

lemma startsWith_append [simp]: "startsWith (p @ r) p"
  by (simp add: startsWith_def)



lemma located_double_quoted:
  assumes "ws \<noteq> []" "\<forall>c\<in>set ws. isSpace c" "v \<noteq> []" "CHR 0x22 \<notin> set v"
  shows "locatedValue patterns (flagLiteral @ ws @ [CHR 0x22] @ v @ [CHR 0x22] @ rest) = Some v"
proof -
  let ?q = "CHR 0x22 :: char"
  let ?s = "flagLiteral @ ws @ [?q] @ v @ [?q] @ rest"
  have nsq: "\<not> isSpace ?q" by (simp add: isSpace_def)
  have tw: "takeWhile isSpace (ws @ ?q # v @ ?q # rest) = ws"
    using assms(2) nsq by (simp add: takeWhile_append2)
  have dw: "dropWhile isSpace (ws @ ?q # v @ ?q # rest) = ?q # v @ ?q # rest"
    using assms(2) nsq by (simp add: dropWhile_append2)
  have tb: "takeWhile (\<lambda>x. x \<noteq> ?q) (v @ ?q # rest) = v"
    using assms(4) by (induction v) auto
  have db: "dropWhile (\<lambda>x. x \<noteq> ?q) (v @ ?q # rest) = ?q # rest"
    using assms(4) by (induction v) auto
  have "matchQuotedAt ?q ?s = Some v"
    using assms(1,3) by (simp add: matchQuotedAt_def tw dw tb db)
  then have "firstMatch (matchQuotedAt ?q) ?s = Some v" by (rule firstMatch_head)
  then show ?thesis using assms(3) by (simp add: patterns_def)
qed




section \<open>The sanitization pipeline: properties\<close>

subsection \<open>A pattern that does not occur\<close>






subsection \<open>Scanning a text in two parts\<close>




subsection \<open>Token shapes are made of word characters\<close>






lemma isAlnum_isWordChar: "isAlnum c \<Longrightarrow> isWordChar c"
  by (simp add: isWordChar_def)






















subsection \<open>Evaluating the stages\<close>

lemma ascii_simps [simp]: "ascii [] = []" "ascii (c # cs) = of_char c # ascii cs"
  by (simp_all add: ascii_def)













subsection \<open>Delimited tokens\<close>


lemma take_drop_split: "tok = take n tok @ drop n tok"
  by simp







end
